theory Spec2Isabelle
  imports Main "HOL-Library.Word" "HOL-Library.Signed_Division"
begin

unbundle bit_operations_syntax

section \<open>The IPL of the badge SoC: soc/ipl/main.c\<close>

text \<open>
  The code casts pointers to \<open>uint32_t\<close> (lines 32, 33 and 67): a pointer, a
  \<open>uintptr_t\<close>, an \<open>int\<close> and a \<open>uint32_t\<close> are all 32 bits wide. RAM is a flat
  store of bytes indexed by 32-bit addresses. \<open>lcdfb[i]\<close> is the byte at address \<open>lcdfb + i\<close>, whether or not that
  address lies inside the block \<open>calloc\<close> returned: C leaves an access past the block
  undefined, the bare-metal machine performs it, and the model keeps the address so
  that a theorem can say where each store lands.
\<close>

type_synonym addr = "32 word"

text \<open>The colour constants of the GUI library that \<open>main\<close> names (their values are in ugui.h).\<close>

datatype color_const = C_WHITE | C_GREEN | C_RED

text \<open>
  What the program does to the world outside its registers: stores to memory and to
  memory-mapped registers, and calls of its collaborators, in program order.
\<close>

datatype event =
    Store8 addr "8 word"
  | Store32 addr "32 word"
  | Printf string "32 word list"
  | Load_new_app string
  | Sbrk_app_set_heap_start addr
  | Maincall addr "32 word" addr
  | UG_PutString "16 word" "16 word" string
  | UG_SetForecolor color_const
  | Usb_poll
  | Tud_task

text \<open>
  The global \<open>lcdfb\<close> (0 is \<open>NULL\<close>), the bytes of RAM, and the events so far. The
  pointer variable is kept apart from the bytes: no byte store changes it. For a store
  inside the allocated block C guarantees this; for a store past the block it is an
  assumption of the model.
\<close>

record machine =
  lcdfb :: addr
  mem :: "addr \<Rightarrow> 8 word"
  trace :: "event list"

definition emit :: "event \<Rightarrow> machine \<Rightarrow> machine" where
  "emit e s = s\<lparr>trace := trace s @ [e]\<rparr>"

text \<open>A byte store: \<open>p[i] = v\<close> for a \<open>uint8_t\<close> pointer.\<close>

definition store8 :: "addr \<Rightarrow> 8 word \<Rightarrow> machine \<Rightarrow> machine" where
  "store8 a v s = emit (Store8 a v) (s\<lparr>mem := (mem s)(a := v)\<rparr>)"

subsection \<open>The framebuffer\<close>

text \<open>
  Line 66: \<open>lcdfb = calloc(320*512/2, 1)\<close>. The block has \<open>fb_size\<close> bytes; an address
  \<open>a\<close> is inside it when its offset from \<open>lcdfb\<close> is below \<open>fb_size\<close>.
\<close>

definition fb_size :: nat where
  "fb_size = 320 * 512 div 2"

definition in_fb :: "machine \<Rightarrow> addr \<Rightarrow> bool" where
  "in_fb s a = (lcdfb s \<noteq> 0 \<and> unat (a - lcdfb s) < fb_size)"

subsection \<open>lcd_pset (lines 37 to 55)\<close>

text \<open>
  Lines 41 to 47: the nibble \<open>n\<close>, an \<open>int\<close>, built from six bit tests on the colour.
  The colour type \<open>UG_COLOR\<close> is declared in ugui.h; the code tests bit 23, and the
  spec calls the colour a 24-bit or wider value, so it is a 32-bit word here.
\<close>

definition lcd_pset_n :: "32 word \<Rightarrow> 32 word" where
  "lcd_pset_n c =
     (let n = 0;
          n = (if c AND push_bit 7 1 \<noteq> 0 then n OR 4 else n);
          n = (if c AND push_bit 15 1 \<noteq> 0 then n OR 2 else n);
          n = (if c AND push_bit 23 1 \<noteq> 0 then n OR 1 else n);
          n = (if c AND push_bit 6 1 \<noteq> 0 then n OR 8 else n);
          n = (if c AND push_bit 14 1 \<noteq> 0 then n OR 8 else n);
          n = (if c AND push_bit 22 1 \<noteq> 0 then n OR 8 else n)
      in n)"

text \<open>
  The index \<open>(x+y*512)/2\<close>: \<open>x\<close> and \<open>y\<close> are \<open>UG_S16\<close> (the GUI library's
  signed 16-bit type, declared in ugui.h), promoted to \<open>int\<close>; the sum
  lies within 32 bits for every pair of 16-bit operands, so it is computed here on
  unbounded integers. C's \<open>/\<close> truncates towards zero: \<open>sdiv\<close>.
\<close>

definition lcd_pset_index :: "16 word \<Rightarrow> 16 word \<Rightarrow> int" where
  "lcd_pset_index x y = (sint x + sint y * 512) sdiv 2"

text \<open>The address of \<open>lcdfb[(x+y*512)/2]\<close>.\<close>

definition lcd_pset_addr :: "16 word \<Rightarrow> 16 word \<Rightarrow> machine \<Rightarrow> addr" where
  "lcd_pset_addr x y s = lcdfb s + word_of_int (lcd_pset_index x y)"

text \<open>
  Lines 49 to 53: \<open>o\<close> is a \<open>uint8_t\<close>, promoted to \<open>int\<close> for the bit operations and
  cut back to 8 bits by the assignment.
\<close>

definition lcd_pset_byte :: "16 word \<Rightarrow> 32 word \<Rightarrow> 8 word \<Rightarrow> 8 word" where
  "lcd_pset_byte x n ob =
     (if x AND 1 \<noteq> 0
      then ucast ((ucast ob AND 0xf) OR push_bit 4 n)
      else ucast ((ucast ob AND 0xf0) OR n))"

definition lcd_pset :: "16 word \<Rightarrow> 16 word \<Rightarrow> 32 word \<Rightarrow> machine \<Rightarrow> machine" where
  "lcd_pset x y c s =
     (if lcdfb s = 0 then s
      else if sint x < 0 \<or> sint x > 480 then s
      else if sint y < 0 \<or> sint y > 320 then s
      else
        let n = lcd_pset_n c;
            ob = mem s (lcd_pset_addr x y s);
            ob = lcd_pset_byte x n ob
        in store8 (lcd_pset_addr x y s) ob s)"

subsection \<open>The channels of a colour\<close>

text \<open>
  \<open>UG_COLOR\<close> and the colour constants are declared in ugui.h, which is not among the
  sources here, so where each 8-bit channel lies in a colour is a parameter: the
  number of the channel's lowest bit. Of each channel the code can use two bits, the
  top one and the one below it.
\<close>

record color_layout =
  red_lsb :: nat
  green_lsb :: nat
  blue_lsb :: nat

definition top_bit :: "nat \<Rightarrow> 32 word \<Rightarrow> bool" where
  "top_bit lsb c = bit c (lsb + 7)"

definition second_bit :: "nat \<Rightarrow> 32 word \<Rightarrow> bool" where
  "second_bit lsb c = bit c (lsb + 6)"

text \<open>
  The layout of the GUI library's 32-bit colours is \<open>0xRRGGBB\<close>: red in bits 16 to 23,
  green in bits 8 to 15, blue in bits 0 to 7. Its \<open>C_RED\<close>, which line 104 passes to
  \<open>UG_SetForecolor\<close>, is \<open>0xFF0000\<close>. The byte-reversed layout \<open>0xBBGGRR\<close> has red in
  the low byte.
\<close>

definition ugui_rgb888 :: color_layout where
  "ugui_rgb888 = \<lparr>red_lsb = 16, green_lsb = 8, blue_lsb = 0\<rparr>"

definition reversed_bgr888 :: color_layout where
  "reversed_bgr888 = \<lparr>red_lsb = 0, green_lsb = 8, blue_lsb = 16\<rparr>"

text \<open>
  The nibble as the specification describes it, for a layout \<open>L\<close>: bit 2 follows the
  top bit of red, bit 1 that of green, bit 0 that of blue, and bit 3 is set exactly
  when one of the three second bits is.
\<close>

definition nibble_as_specified :: "color_layout \<Rightarrow> 32 word \<Rightarrow> bool" where
  "nibble_as_specified L c =
     ((bit (lcd_pset_n c) 2 = top_bit (red_lsb L) c)
      \<and> (bit (lcd_pset_n c) 1 = top_bit (green_lsb L) c)
      \<and> (bit (lcd_pset_n c) 0 = top_bit (blue_lsb L) c)
      \<and> (bit (lcd_pset_n c) 3 =
           (second_bit (red_lsb L) c \<or> second_bit (green_lsb L) c \<or> second_bit (blue_lsb L) c)))"

subsection \<open>cache_flush (lines 31 to 34)\<close>

text \<open>
  The macros \<open>MACH_RAM_START\<close> and \<open>MACH_FLUSH_REGION\<close> come from
  gloss/mach_defines.h; the model takes their values as parameters.
\<close>

record mach_defines =
  MACH_RAM_START :: addr
  MACH_FLUSH_REGION :: addr

text \<open>
  \<open>~3\<close> is the \<open>int\<close> -4, converted to \<open>uint32_t\<close> for the \<open>&\<close>: \<open>NOT 3\<close> on 32 bits.
  The store through the \<open>volatile uint32_t\<close> pointer goes to the flush-control
  window, not to RAM: it is an event and leaves \<open>mem\<close> as it is.
\<close>

definition cache_flush :: "mach_defines \<Rightarrow> addr \<Rightarrow> addr \<Rightarrow> machine \<Rightarrow> machine" where
  "cache_flush md addr_start addr_end s =
     (let p = (addr_start AND NOT 3) - MACH_RAM_START md + MACH_FLUSH_REGION md
      in emit (Store32 p (addr_end - MACH_RAM_START md)) s)"

subsection \<open>main: the application handoff (lines 85 to 91)\<close>

text \<open>
  The loader \<open>load_new_app\<close> is a collaborator (loadapp.h): a parameter that gives,
  for an image name, the entry address it returns and the value it leaves in
  \<open>max_app_addr\<close>. What the loader does inside is not part of \<open>main\<close>.
\<close>

definition main_handoff :: "(string \<Rightarrow> addr \<times> addr) \<Rightarrow> machine \<Rightarrow> machine" where
  "main_handoff load_new_app s =
     (let (la, max_app_addr) = load_new_app ''autoexec.elf'';
          s = emit (Load_new_app ''autoexec.elf'') s;
          s = emit (Printf ''Loaded app, entry point is 0x%x, max addr used is 0x%X. Running...\<newline>''
                      [la, max_app_addr]) s;
          s = emit (Sbrk_app_set_heap_start max_app_addr) s;
          maincall = la;
          s = emit (Printf ''Go!\<newline>'' []) s
      in emit (Maincall maincall 0 0) s)"

subsection \<open>main: the diagnostic loop (lines 101 to 111)\<close>

text \<open>\<open>sprintf(buf, "%d", p)\<close>: the decimal digits of a signed 32-bit value.\<close>

definition digit_char :: "nat \<Rightarrow> char" where
  "digit_char d =
     (if d = 0 then CHR ''0'' else if d = 1 then CHR ''1'' else if d = 2 then CHR ''2''
      else if d = 3 then CHR ''3'' else if d = 4 then CHR ''4'' else if d = 5 then CHR ''5''
      else if d = 6 then CHR ''6'' else if d = 7 then CHR ''7'' else if d = 8 then CHR ''8''
      else CHR ''9'')"

fun dec_digits :: "nat \<Rightarrow> string" where
  "dec_digits n =
     (if n < 10 then [digit_char n]
      else dec_digits (n div 10) @ [digit_char (n mod 10)])"

declare dec_digits.simps [simp del]

definition sprintf_d :: "32 word \<Rightarrow> string" where
  "sprintf_d p =
     (if sint p < 0 then CHR ''-'' # dec_digits (nat (- sint p))
      else dec_digits (nat (sint p)))"

text \<open>
  Reading a decimal text back (what \<open>sscanf\<close> with \<open>"%d"\<close> gives on the text of
  \<open>sprintf_d\<close>), to state that the text is the decimal representation of a number.
\<close>

definition digit_val :: "char \<Rightarrow> nat" where
  "digit_val ch =
     (if ch = CHR ''0'' then 0 else if ch = CHR ''1'' then 1 else if ch = CHR ''2'' then 2
      else if ch = CHR ''3'' then 3 else if ch = CHR ''4'' then 4 else if ch = CHR ''5'' then 5
      else if ch = CHR ''6'' then 6 else if ch = CHR ''7'' then 7 else if ch = CHR ''8'' then 8
      else 9)"

definition dec_value :: "string \<Rightarrow> nat" where
  "dec_value cs = foldl (\<lambda>acc ch. 10 * acc + digit_val ch) 0 cs"

definition dec_int :: "string \<Rightarrow> int" where
  "dec_int cs =
     (case cs of
        [] \<Rightarrow> 0
      | ch # r \<Rightarrow> if ch = CHR ''-'' then - int (dec_value r) else int (dec_value cs))"

text \<open>Lines 107 to 110: \<open>for (int i=0; i<500; i++) { usb_poll(); tud_task(); }\<close>.\<close>

function poll_loop :: "int \<Rightarrow> machine \<Rightarrow> machine" where
  "poll_loop i s =
     (if i < 500 then poll_loop (i + 1) (emit Tud_task (emit Usb_poll s)) else s)"
  by pat_completeness auto
termination
  by (relation "measure (\<lambda>(i, s). nat (500 - i))") auto

declare poll_loop.simps [simp del]

text \<open>
  One pass through the body of \<open>while(1)\<close>. The counter \<open>p\<close> is a local \<open>int\<close> of
  \<open>main\<close> that is never initialised, so its value on entry is a parameter; \<open>p++\<close> is
  the 32-bit addition. \<open>UG_PutString\<close> belongs to the GUI library: its call is an
  event, the pixels it draws through \<open>lcd_pset\<close> are not modelled.
\<close>

definition loop_body :: "mach_defines \<Rightarrow> 32 word \<times> machine \<Rightarrow> 32 word \<times> machine" where
  "loop_body md ps =
     (let (p, s) = ps;
          p = p + 1;
          buf = sprintf_d p;
          s = emit (UG_SetForecolor C_RED) s;
          s = emit (UG_PutString 48 64 buf) s;
          s = cache_flush md (lcdfb s) (lcdfb s + word_of_int (320 * 480 sdiv 2)) s;
          s = poll_loop 0 s
      in (p, s))"

text \<open>The loop has no exit; \<open>diag_loop n\<close> is its first \<open>n\<close> passes.\<close>

fun diag_loop :: "mach_defines \<Rightarrow> nat \<Rightarrow> 32 word \<times> machine \<Rightarrow> 32 word \<times> machine" where
  "diag_loop md 0 ps = ps"
| "diag_loop md (Suc n) ps = diag_loop md n (loop_body md ps)"

subsection \<open>Reading traces\<close>

text \<open>The events a run adds to the trace.\<close>

definition events_of :: "(machine \<Rightarrow> machine) \<Rightarrow> machine \<Rightarrow> event list" where
  "events_of f s = drop (length (trace s)) (trace (f s))"

fun is_maincall :: "event \<Rightarrow> bool" where
  "is_maincall (Maincall e argc argv) = True"
| "is_maincall _ = False"

fun is_store32 :: "event \<Rightarrow> bool" where
  "is_store32 (Store32 a v) = True"
| "is_store32 _ = False"

text \<open>
  \<open>preceded P Q es\<close>: the first event of \<open>es\<close> that satisfies \<open>Q\<close>, if there is one,
  comes after an event that satisfies \<open>P\<close>.
\<close>

fun preceded :: "(event \<Rightarrow> bool) \<Rightarrow> (event \<Rightarrow> bool) \<Rightarrow> event list \<Rightarrow> bool" where
  "preceded P Q [] = True"
| "preceded P Q (e # es) = (if P e then True else if Q e then False else preceded P Q es)"

text \<open>
  A store of \<open>cache_flush\<close> read back as a region: \<open>cache_flush md a b\<close> stores
  \<open>b - MACH_RAM_START\<close> at \<open>(a AND NOT 3) - MACH_RAM_START + MACH_FLUSH_REGION\<close>, so a
  store of \<open>v\<close> at \<open>t\<close> asks for the addresses from \<open>t - MACH_FLUSH_REGION + MACH_RAM_START\<close>
  to \<open>v + MACH_RAM_START\<close>. \<open>flush_covers md lo hi e\<close>: the event \<open>e\<close> is such a store
  and its region, read as closed at both ends, contains the addresses \<open>lo\<close> to \<open>hi\<close>.
\<close>

fun flush_covers :: "mach_defines \<Rightarrow> addr \<Rightarrow> addr \<Rightarrow> event \<Rightarrow> bool" where
  "flush_covers md lo hi (Store32 t v) =
     (t - MACH_FLUSH_REGION md + MACH_RAM_START md \<le> lo \<and> hi \<le> v + MACH_RAM_START md)"
| "flush_covers md lo hi _ = False"

fun is_heap_start :: "event \<Rightarrow> bool" where
  "is_heap_start (Sbrk_app_set_heap_start a) = True"
| "is_heap_start _ = False"

text \<open>
  The target of the flush store in the spec's words: the start address masked to a
  4-byte boundary (the largest multiple of 4 not above it), minus the RAM base, offset
  into the flush-control window.
\<close>

definition flush_target_spec :: "mach_defines \<Rightarrow> addr \<Rightarrow> addr" where
  "flush_target_spec md a =
     MACH_FLUSH_REGION md + (word_of_nat (4 * (unat a div 4)) - MACH_RAM_START md)"

subsection \<open>Concrete inputs\<close>

text \<open>
  A machine whose framebuffer sits at \<open>0x40100000\<close> with all of RAM zero, the address
  map of the badge (RAM at \<open>0x40000000\<close>, the flush window at \<open>0x80000000\<close>), and a
  loader that reports the entry \<open>0x40002000\<close> and the highest address \<open>0x40012344\<close>.
\<close>

definition example_machine :: machine where
  "example_machine = \<lparr>lcdfb = 0x40100000, mem = (\<lambda>a. 0), trace = []\<rparr>"

definition example_defines :: mach_defines where
  "example_defines = \<lparr>MACH_RAM_START = 0x40000000, MACH_FLUSH_REGION = 0x80000000\<rparr>"

definition example_loader :: "string \<Rightarrow> addr \<times> addr" where
  "example_loader name = (0x40002000, 0x40012344)"

section \<open>Basic facts\<close>

subsection \<open>Events and stores\<close>

lemma emit_fields:
  "trace (emit e s) = trace s @ [e]" "mem (emit e s) = mem s" "lcdfb (emit e s) = lcdfb s"
  by (simp_all add: emit_def)

lemma store8_fields:
  "mem (store8 a v s) = (mem s)(a := v)" "lcdfb (store8 a v s) = lcdfb s"
  "trace (store8 a v s) = trace s @ [Store8 a v]"
  by (simp_all add: store8_def emit_def)

subsection \<open>The nibble\<close>

lemma and_single_bit: "(c AND push_bit k 1 \<noteq> 0) = bit c k" for c :: "32 word"
  by (rule bit_iff_and_push_bit_not_eq_0 [symmetric])

lemma lcd_pset_n_cases:
  "lcd_pset_n c =
     (if bit c 7 then 4 else 0) OR (if bit c 15 then 2 else 0) OR (if bit c 23 then 1 else 0)
     OR (if bit c 6 \<or> bit c 14 \<or> bit c 22 then 8 else 0)"
  unfolding lcd_pset_n_def Let_def and_single_bit by simp

lemma lcd_pset_n_mask: "lcd_pset_n c AND mask 4 = lcd_pset_n c"
  by (simp add: lcd_pset_n_cases mask_eq_exp_minus_1)

lemma lcd_pset_n_high_clear: "bit (lcd_pset_n c) k \<Longrightarrow> k < 4"
proof -
  assume "bit (lcd_pset_n c) k"
  then have "bit (lcd_pset_n c AND mask 4) k" by (simp only: lcd_pset_n_mask)
  then show "k < 4" by (simp add: bit_simps)
qed

subsection \<open>Packing two pixels into a byte\<close>

lemma low_nibble_mask: "(0xf :: 'a::len word) = mask 4"
  by (simp add: mask_eq_exp_minus_1)

lemma high_nibble_mask: "(0xf0 :: 'a::len word) = push_bit 4 (mask 4)"
  by (simp add: mask_eq_exp_minus_1)

lemma x_and_1: "(x AND 1 \<noteq> 0) = odd (sint x)" for x :: "16 word"
proof -
  have "(x AND 1 \<noteq> 0) = bit x 0"
    using bit_iff_and_push_bit_not_eq_0 [of x 0] by simp
  also have "\<dots> = odd (sint x)"
    by (simp add: bit_sint_iff flip: bit_0)
  finally show ?thesis .
qed

lemma byte_even_low:
  "even (sint x) \<Longrightarrow> lcd_pset_byte x (lcd_pset_n c) ob AND 0xf = ucast (lcd_pset_n c)"
  unfolding lcd_pset_byte_def x_and_1 low_nibble_mask high_nibble_mask
  by (simp, rule bit_word_eqI) (auto simp: bit_simps dest: lcd_pset_n_high_clear)

lemma byte_even_high:
  "even (sint x) \<Longrightarrow> lcd_pset_byte x (lcd_pset_n c) ob AND 0xf0 = ob AND 0xf0"
  unfolding lcd_pset_byte_def x_and_1 low_nibble_mask high_nibble_mask
  by (simp, rule bit_word_eqI) (auto simp: bit_simps dest: lcd_pset_n_high_clear)

lemma byte_odd_low:
  "odd (sint x) \<Longrightarrow> lcd_pset_byte x (lcd_pset_n c) ob AND 0xf = ob AND 0xf"
  unfolding lcd_pset_byte_def x_and_1 low_nibble_mask high_nibble_mask
  by (simp, rule bit_word_eqI) (auto simp: bit_simps dest: lcd_pset_n_high_clear)

lemma byte_odd_high:
  "odd (sint x) \<Longrightarrow> drop_bit 4 (lcd_pset_byte x (lcd_pset_n c) ob) = ucast (lcd_pset_n c)"
  unfolding lcd_pset_byte_def x_and_1 low_nibble_mask high_nibble_mask
  by (simp, rule bit_word_eqI) (auto simp: bit_simps dest: lcd_pset_n_high_clear)

lemma byte_even_drop:
  "even (sint x) \<Longrightarrow> drop_bit 4 (lcd_pset_byte x (lcd_pset_n c) ob) = drop_bit 4 ob"
  unfolding lcd_pset_byte_def x_and_1 low_nibble_mask high_nibble_mask
proof (simp, rule bit_word_eqI)
  fix n
  assume "even (sint x)" "n < LENGTH(8)"
  have "bit ob (4 + n) \<Longrightarrow> n < 4"
    using bit_imp_le_length [of ob "4 + n"] by simp
  then show "bit (drop_bit 4 (ucast (ucast ob AND push_bit 4 (mask 4) OR lcd_pset_n c) :: 8 word)) n
      = bit (drop_bit 4 ob) n"
    by (auto simp: bit_simps dest: lcd_pset_n_high_clear)
qed

lemma byte_twice: "lcd_pset_byte x n (lcd_pset_byte x n ob) = lcd_pset_byte x n ob"
  unfolding lcd_pset_byte_def x_and_1 low_nibble_mask high_nibble_mask
  by (rule bit_word_eqI) (auto simp: bit_simps)

subsection \<open>The index and the address\<close>

lemma lcd_pset_index_div:
  "0 \<le> sint x \<Longrightarrow> 0 \<le> sint y \<Longrightarrow> lcd_pset_index x y = (sint x + sint y * 512) div 2"
  by (simp add: lcd_pset_index_def signed_divide_int_def sgn_if)

lemma sint_next_x:
  "0 \<le> sint x \<Longrightarrow> sint x < 480 \<Longrightarrow> sint (x + 1) = sint x + 1" for x :: "16 word"
  by (simp add: sint_word_add signed_take_bit_int_eq_self)

lemma lcd_pset_index_pair:
  assumes "0 \<le> sint x" "sint x < 480" "even (sint x)" "0 \<le> sint y"
  shows "lcd_pset_index (x + 1) y = lcd_pset_index x y"
proof -
  have "sint (x + 1) = sint x + 1" using assms by (simp add: sint_next_x)
  then show ?thesis using assms by (simp add: lcd_pset_index_div) presburger
qed

lemma unat_word_of_int_small:
  "0 \<le> i \<Longrightarrow> i < 2 ^ 32 \<Longrightarrow> unat (word_of_int i :: 32 word) = nat i"
  by (simp add: unat_eq_nat_uint uint_word_of_int take_bit_int_eq_self)

lemma lcd_pset_passes:
  assumes "lcdfb s \<noteq> 0" "0 \<le> sint x" "sint x \<le> 480" "0 \<le> sint y" "sint y \<le> 320"
  shows "lcd_pset x y c s =
           store8 (lcd_pset_addr x y s)
             (lcd_pset_byte x (lcd_pset_n c) (mem s (lcd_pset_addr x y s))) s"
  using assms by (simp add: lcd_pset_def Let_def)

lemma lcd_pset_lcdfb: "lcdfb (lcd_pset x y c s) = lcdfb s"
  by (simp add: lcd_pset_def Let_def store8_fields)

lemma lcd_pset_addr_after: "lcd_pset_addr x y (lcd_pset x' y' c s) = lcd_pset_addr x y s"
  by (simp add: lcd_pset_addr_def lcd_pset_lcdfb)

lemma row_320_index:
  assumes "0 \<le> sint x" "sint x \<le> 480"
  shows "int fb_size \<le> lcd_pset_index x 320" "lcd_pset_index x 320 < 2 ^ 32"
  using assms by (simp_all add: lcd_pset_index_div fb_size_def)

lemma row_320_outside:
  assumes "0 \<le> sint x" "sint x \<le> 480"
  shows "\<not> in_fb s (lcd_pset_addr x 320 s)"
proof -
  have "unat (lcd_pset_addr x 320 s - lcdfb s) = nat (lcd_pset_index x 320)"
    using row_320_index [OF assms] assms
    by (simp add: lcd_pset_addr_def unat_word_of_int_small lcd_pset_index_div)
  then show ?thesis
    using row_320_index(1) [OF assms] by (auto simp add: in_fb_def)
qed

lemma rows_below_320_inside:
  assumes "lcdfb s \<noteq> 0" "0 \<le> sint x" "sint x \<le> 480" "0 \<le> sint y" "sint y < 320"
  shows "in_fb s (lcd_pset_addr x y s)"
proof -
  have i: "0 \<le> lcd_pset_index x y" "lcd_pset_index x y < int fb_size"
    using assms by (simp_all add: lcd_pset_index_div fb_size_def)
  then have "unat (lcd_pset_addr x y s - lcdfb s) = nat (lcd_pset_index x y)"
    by (simp add: lcd_pset_addr_def unat_word_of_int_small fb_size_def)
  then show ?thesis using i assms by (simp add: in_fb_def)
qed

subsection \<open>Alignment\<close>

lemma and_not_3_shift: "a AND NOT 3 = push_bit 2 (drop_bit 2 a)" for a :: "32 word"
proof -
  have m: "(3 :: 32 word) = mask 2" by (simp add: mask_eq_exp_minus_1)
  have "a AND NOT (mask 2) = push_bit 2 (drop_bit 2 a)"
  proof (rule bit_word_eqI)
    fix n assume n: "n < LENGTH(32)"
    show "bit (a AND NOT (mask 2)) n = bit (push_bit 2 (drop_bit 2 a)) n"
    proof (cases "n < 2")
      case True
      then show ?thesis by (simp add: bit_simps)
    next
      case False
      then obtain k where "n = 2 + k" using le_Suc_ex [of 2 n] by auto
      then show ?thesis using n by (simp add: bit_simps)
    qed
  qed
  then show ?thesis by (simp only: m)
qed

lemma unat_and_not_3: "unat (a AND NOT 3) = 4 * (unat a div 4)" for a :: "32 word"
proof -
  have "unat a < 2 ^ 32" using unsigned_less [of a] by simp
  then have "unat a div 4 * 4 < 2 ^ 32" by simp
  then have "unat (a div 4 * 4) = unat a div 4 * 4"
    by (simp add: unat_word_ariths unat_div)
  then show ?thesis
    by (simp only: and_not_3_shift) (simp add: push_bit_eq_mult drop_bit_eq_div)
qed

lemma and_not_3_spec: "a AND NOT 3 = word_of_nat (4 * (unat a div 4))" for a :: "32 word"
proof -
  have "a AND NOT 3 = word_of_nat (unat (a AND NOT 3))" by simp
  then show ?thesis by (simp only: unat_and_not_3)
qed

subsection \<open>Decimal text\<close>

lemma digit_val_char: "d < 10 \<Longrightarrow> digit_val (digit_char d) = d"
  unfolding digit_char_def digit_val_def by simp

lemma digit_char_not_minus: "digit_char d \<noteq> CHR ''-''"
  by (simp add: digit_char_def)

lemma dec_value_snoc: "dec_value (cs @ [ch]) = 10 * dec_value cs + digit_val ch"
  by (simp add: dec_value_def)

lemma dec_value_digits: "dec_value (dec_digits n) = n"
proof (induction n rule: dec_digits.induct)
  case (1 n)
  show ?case
  proof (cases "n < 10")
    case True
    then show ?thesis
      by (simp add: dec_digits.simps [of n] dec_value_def digit_val_char)
  next
    case False
    with 1 have "dec_value (dec_digits (n div 10)) = n div 10" by simp
    with False show ?thesis
      by (simp add: dec_digits.simps [of n] dec_value_snoc digit_val_char)
  qed
qed

lemma dec_digits_first: "\<exists>ch r. dec_digits n = ch # r \<and> ch \<noteq> CHR ''-''"
proof (induction n rule: dec_digits.induct)
  case (1 n)
  show ?case
  proof (cases "n < 10")
    case True
    then show ?thesis by (simp add: dec_digits.simps [of n] digit_char_not_minus)
  next
    case False
    with 1 obtain ch r where "dec_digits (n div 10) = ch # r" "ch \<noteq> CHR ''-''" by blast
    with False show ?thesis by (simp add: dec_digits.simps [of n])
  qed
qed

lemma dec_int_sprintf_d: "dec_int (sprintf_d p) = sint p"
proof (cases "sint p < 0")
  case True
  then show ?thesis by (simp add: sprintf_d_def dec_int_def dec_value_digits)
next
  case False
  obtain ch r where h: "dec_digits (nat (sint p)) = ch # r" "ch \<noteq> CHR ''-''"
    using dec_digits_first by blast
  have "dec_value (ch # r) = nat (sint p)"
    using dec_value_digits [of "nat (sint p)"] h by simp
  with False h show ?thesis by (simp add: sprintf_d_def dec_int_def)
qed

subsection \<open>The polling loop and the loop body\<close>

lemma poll_loop_trace:
  "trace (poll_loop i s) = trace s @ concat (replicate (nat (500 - i)) [Usb_poll, Tud_task])"
proof (induction i s rule: poll_loop.induct)
  case (1 i s)
  show ?case
  proof (cases "i < 500")
    case True
    then have n: "nat (500 - i) = Suc (nat (500 - (i + 1)))" by simp
    from True 1 show ?thesis
      by (simp add: poll_loop.simps [of i] n emit_def)
  next
    case False
    then show ?thesis by (simp add: poll_loop.simps [of i])
  qed
qed

lemma cache_flush_events:
  "events_of (cache_flush md a b) s =
     [Store32 ((a AND NOT 3) - MACH_RAM_START md + MACH_FLUSH_REGION md) (b - MACH_RAM_START md)]"
  by (simp add: events_of_def cache_flush_def emit_def Let_def)

lemma poll_loop_fields: "lcdfb (poll_loop i s) = lcdfb s \<and> mem (poll_loop i s) = mem s"
proof (induction i s rule: poll_loop.induct)
  case (1 i s)
  show ?case
  proof (cases "i < 500")
    case True
    with 1 show ?thesis by (simp add: poll_loop.simps [of i] emit_def)
  next
    case False
    then show ?thesis by (simp add: poll_loop.simps [of i])
  qed
qed

lemma loop_body_fields:
  "lcdfb (snd (loop_body md (p, s))) = lcdfb s" "mem (snd (loop_body md (p, s))) = mem s"
  by (simp_all add: loop_body_def Let_def poll_loop_fields cache_flush_def emit_def)

lemma loop_body_trace:
  "trace (snd (loop_body md (p, s))) = trace s @
     [UG_SetForecolor C_RED, UG_PutString 48 64 (sprintf_d (p + 1))]
     @ events_of (cache_flush md (lcdfb s) (lcdfb s + 76800)) s
     @ concat (replicate 500 [Usb_poll, Tud_task])"
  by (simp add: loop_body_def poll_loop_trace cache_flush_events cache_flush_def emit_def
      signed_divide_int_def Let_def)

lemma loop_body_counter: "fst (loop_body md (p, s)) = p + 1"
  by (simp add: loop_body_def Let_def)

lemma loop_body_events:
  "events_of (\<lambda>s. snd (loop_body md (p, s))) s =
     [UG_SetForecolor C_RED, UG_PutString 48 64 (sprintf_d (p + 1)),
      Store32 ((lcdfb s AND NOT 3) - MACH_RAM_START md + MACH_FLUSH_REGION md)
        (lcdfb s + 76800 - MACH_RAM_START md)]
     @ concat (replicate 500 [Usb_poll, Tud_task])"
  by (simp add: events_of_def loop_body_def poll_loop_trace cache_flush_def emit_def
      signed_divide_int_def Let_def)

lemma main_handoff_events:
  "events_of (main_handoff load_new_app) s =
     [Load_new_app ''autoexec.elf'',
      Printf ''Loaded app, entry point is 0x%x, max addr used is 0x%X. Running...\<newline>''
        [fst (load_new_app ''autoexec.elf''), snd (load_new_app ''autoexec.elf'')],
      Sbrk_app_set_heap_start (snd (load_new_app ''autoexec.elf'')),
      Printf ''Go!\<newline>'' [],
      Maincall (fst (load_new_app ''autoexec.elf'')) 0 0]"
  by (simp add: events_of_def main_handoff_def emit_def Let_def split: prod.split)

lemma diag_loop_counter: "fst (diag_loop md n (p, s)) = p + of_nat n"
proof (induction n arbitrary: p s)
  case 0
  then show ?case by simp
next
  case (Suc n)
  obtain p' s' where b: "loop_body md (p, s) = (p', s')" by (cases "loop_body md (p, s)")
  then have "p' = p + 1" using loop_body_counter [of md p s] by simp
  with Suc b show ?case by simp
qed

text \<open>
  The first \<open>n\<close> passes of the loop: pass \<open>k\<close> draws the counter \<open>p + 1 + k\<close> (in
  32-bit arithmetic) and is otherwise the same as every other pass.
\<close>

lemma diag_loop_trace:
  "trace (snd (diag_loop md n (p, s))) = trace s @
     concat (map (\<lambda>k. [UG_SetForecolor C_RED, UG_PutString 48 64 (sprintf_d (p + 1 + of_nat k))]
                  @ events_of (cache_flush md (lcdfb s) (lcdfb s + 76800)) s
                  @ concat (replicate 500 [Usb_poll, Tud_task])) [0..<n])"
proof (induction n arbitrary: p s)
  case 0
  then show ?case by simp
next
  case (Suc n)
  let ?pass = "\<lambda>q t. [UG_SetForecolor C_RED, UG_PutString 48 64 (sprintf_d q)]
                  @ events_of (cache_flush md (lcdfb t) (lcdfb t + 76800)) t
                  @ concat (replicate 500 [Usb_poll, Tud_task])"
  obtain p' s' where b: "loop_body md (p, s) = (p', s')" by (cases "loop_body md (p, s)")
  have p': "p' = p + 1" using loop_body_counter [of md p s] b by simp
  have s': "lcdfb s' = lcdfb s" using loop_body_fields(1) [of md p s] b by simp
  have t: "trace s' = trace s @ ?pass (p + 1) s"
    using loop_body_trace [of md p s] b by simp
  have e: "?pass q s' = ?pass q s" for q
    by (simp add: cache_flush_events s')
  have m: "map f [0..<Suc n] = f 0 # map (\<lambda>k. f (Suc k)) [0..<n]"
    for f :: "nat \<Rightarrow> event list"
    by (simp add: upt_conv_Cons del: upt_Suc) (simp add: map_Suc_upt [symmetric] del: upt_Suc)
  have "trace (snd (diag_loop md (Suc n) (p, s))) = trace (snd (diag_loop md n (p', s')))"
    by (simp add: b)
  also have "\<dots> = trace s' @ concat (map (\<lambda>k. ?pass (p' + 1 + of_nat k) s') [0..<n])"
    by (rule Suc.IH)
  also have "\<dots> = trace s @ ?pass (p + 1) s
      @ concat (map (\<lambda>k. ?pass (p + 1 + of_nat (Suc k)) s) [0..<n])"
    unfolding e t p' by (simp add: ac_simps)
  also have "\<dots> = trace s @ concat (map (\<lambda>k. ?pass (p + 1 + of_nat k) s) [0..<Suc n])"
    unfolding m by simp
  finally show ?case .
qed

text \<open>
  The reading of a flush store as a region is not empty: a handoff that did call
  \<open>cache_flush\<close> from the RAM base to the loader's highest address before the entry
  call would satisfy \<open>preceded\<close>.
\<close>

lemma flush_before_call_preceded:
  "preceded (flush_covers example_defines (MACH_RAM_START example_defines) 0x40012344) is_maincall
     (events_of (\<lambda>s. emit (Maincall 0x40002000 0 0)
        (cache_flush example_defines (MACH_RAM_START example_defines) 0x40012344 s)) example_machine)"
  by (simp add: events_of_def cache_flush_def emit_def example_defines_def example_machine_def)

section \<open>The claims\<close>

subsection \<open>C1: a cache flush before the entry point\<close>

text \<open>
  C1 as stated: in the application handoff, after the loader has returned the entry
  address \<open>E\<close> and the highest used address \<open>M\<close>, a cache flush that covers at least the
  addresses from the RAM base to \<open>M\<close> is requested before \<open>E\<close> is invoked. It fails:
  with RAM at \<open>0x40000000\<close> and a loader that reports \<open>E = 0x40002000\<close>,
  \<open>M = 0x40012344\<close>, no event of the handoff before the entry call is a flush store
  that covers the loaded region.
\<close>

theorem handoff_flush_counterexample:
  "\<not> preceded (flush_covers example_defines (MACH_RAM_START example_defines) 0x40012344)
       is_maincall (events_of (main_handoff example_loader) example_machine)"
  by (simp add: main_handoff_events example_loader_def)

text \<open>
  C1, amended: in the application handoff (lines 85 to 91), \<open>main\<close> itself requests no
  cache flush between the loader's return and the invocation of the entry point: it
  performs no register store at all, so no event of the handoff is a flush request
  for any region, and the entry call is its last event and its only entry call. A
  flush of the loaded region is left to the loader.
\<close>

theorem handoff_requests_no_flush:
  "filter is_store32 (events_of (main_handoff load_new_app) s) = []
   \<and> list_all (\<lambda>e. \<not> flush_covers md lo hi e) (events_of (main_handoff load_new_app) s)
   \<and> (\<exists>pre. events_of (main_handoff load_new_app) s
          = pre @ [Maincall (fst (load_new_app ''autoexec.elf'')) 0 0]
        \<and> filter is_maincall pre = [])"
  by (simp add: main_handoff_events)

theorem handoff_requests_no_flush_witness:
  "filter is_store32 (events_of (main_handoff example_loader) example_machine) = []
   \<and> length (events_of (main_handoff example_loader) example_machine) = 5"
  using handoff_requests_no_flush [of example_loader example_machine]
  by (simp add: main_handoff_events)

subsection \<open>C2: one nibble of one byte\<close>

text \<open>
  C2: for \<open>0 \<le> x \<le> 480\<close> and \<open>0 \<le> y \<le> 320\<close> and an allocated framebuffer,
  \<open>lcd_pset\<close> performs exactly one byte store, to \<open>lcdfb[(x + y*512)/2]\<close>. For even
  \<open>x\<close> the low nibble of the stored byte is the colour's nibble and the high nibble is
  the byte's old one; for odd \<open>x\<close> the high nibble is the colour's nibble and the low
  nibble the old one. No other byte of memory changes. Consequently, for even \<open>x\<close>
  below 480, after writing \<open>(x, y)\<close> with \<open>c\<close> and \<open>(x+1, y)\<close> with \<open>c'\<close>, in either
  order, the byte holds the nibble of \<open>c\<close> in its low half and that of \<open>c'\<close> in its
  high half. (For \<open>y = 320\<close> the byte lies past the allocated block: see C4.)
\<close>

theorem lcd_pset_one_nibble:
  assumes "lcdfb s \<noteq> 0" "0 \<le> sint x" "sint x \<le> 480" "0 \<le> sint y" "sint y \<le> 320"
  shows
    "(\<exists>v. lcd_pset x y c s = store8 (lcdfb s + word_of_int ((sint x + sint y * 512) div 2)) v s
        \<and> (if even (sint x)
            then v AND 0xf = ucast (lcd_pset_n c)
               \<and> v AND 0xf0 = mem s (lcdfb s + word_of_int ((sint x + sint y * 512) div 2)) AND 0xf0
            else drop_bit 4 v = ucast (lcd_pset_n c)
               \<and> v AND 0xf = mem s (lcdfb s + word_of_int ((sint x + sint y * 512) div 2)) AND 0xf))
     \<and> (\<forall>b. b \<noteq> lcdfb s + word_of_int ((sint x + sint y * 512) div 2)
            \<longrightarrow> mem (lcd_pset x y c s) b = mem s b)
     \<and> (even (sint x) \<and> sint x < 480 \<longrightarrow>
          (\<forall>c'. mem (lcd_pset (x + 1) y c' (lcd_pset x y c s))
                   (lcdfb s + word_of_int ((sint x + sint y * 512) div 2)) AND 0xf
                 = ucast (lcd_pset_n c)
               \<and> drop_bit 4 (mem (lcd_pset (x + 1) y c' (lcd_pset x y c s))
                   (lcdfb s + word_of_int ((sint x + sint y * 512) div 2)))
                 = ucast (lcd_pset_n c')
               \<and> mem (lcd_pset x y c (lcd_pset (x + 1) y c' s))
                   (lcdfb s + word_of_int ((sint x + sint y * 512) div 2)) AND 0xf
                 = ucast (lcd_pset_n c)
               \<and> drop_bit 4 (mem (lcd_pset x y c (lcd_pset (x + 1) y c' s))
                   (lcdfb s + word_of_int ((sint x + sint y * 512) div 2)))
                 = ucast (lcd_pset_n c')))"
proof -
  let ?a = "lcdfb s + word_of_int ((sint x + sint y * 512) div 2)"
  let ?v = "lcd_pset_byte x (lcd_pset_n c) (mem s ?a)"
  have a: "lcd_pset_addr x y s = ?a"
    using assms by (simp add: lcd_pset_addr_def lcd_pset_index_div)
  have run: "lcd_pset x y c s = store8 ?a ?v s"
    using lcd_pset_passes [OF assms, of c] by (simp only: a)
  have nib: "if even (sint x)
       then ?v AND 0xf = ucast (lcd_pset_n c) \<and> ?v AND 0xf0 = mem s ?a AND 0xf0
       else drop_bit 4 ?v = ucast (lcd_pset_n c) \<and> ?v AND 0xf = mem s ?a AND 0xf"
    by (simp add: byte_even_low byte_even_high byte_odd_low byte_odd_high)
  have one: "\<exists>v. lcd_pset x y c s = store8 ?a v s
        \<and> (if even (sint x)
            then v AND 0xf = ucast (lcd_pset_n c) \<and> v AND 0xf0 = mem s ?a AND 0xf0
            else drop_bit 4 v = ucast (lcd_pset_n c) \<and> v AND 0xf = mem s ?a AND 0xf)"
    using run nib by blast
  have others: "\<forall>b. b \<noteq> ?a \<longrightarrow> mem (lcd_pset x y c s) b = mem s b"
    by (simp add: run store8_fields)
  have pair: "even (sint x) \<and> sint x < 480 \<longrightarrow>
      (\<forall>c'. mem (lcd_pset (x + 1) y c' (lcd_pset x y c s)) ?a AND 0xf = ucast (lcd_pset_n c)
         \<and> drop_bit 4 (mem (lcd_pset (x + 1) y c' (lcd_pset x y c s)) ?a) = ucast (lcd_pset_n c')
         \<and> mem (lcd_pset x y c (lcd_pset (x + 1) y c' s)) ?a AND 0xf = ucast (lcd_pset_n c)
         \<and> drop_bit 4 (mem (lcd_pset x y c (lcd_pset (x + 1) y c' s)) ?a) = ucast (lcd_pset_n c'))"
  proof (intro impI allI)
    fix c'
    assume e: "even (sint x) \<and> sint x < 480"
    then have sx: "sint (x + 1) = sint x + 1" using assms by (simp add: sint_next_x)
    then have o: "odd (sint (x + 1))" using e by simp
    have r: "0 \<le> sint (x + 1)" "sint (x + 1) \<le> 480" using sx e assms by simp_all
    have a': "lcd_pset_addr (x + 1) y t = lcdfb t + word_of_int ((sint x + sint y * 512) div 2)"
      for t
      using lcd_pset_index_pair [of x y] e assms
      by (simp add: lcd_pset_addr_def lcd_pset_index_div)
    have right: "lcdfb t = lcdfb s \<Longrightarrow>
        lcd_pset (x + 1) y c' t = store8 ?a (lcd_pset_byte (x + 1) (lcd_pset_n c') (mem t ?a)) t"
      for t
      using lcd_pset_passes [of t "x + 1" y c'] r assms by (simp add: a')
    have left: "lcdfb t = lcdfb s \<Longrightarrow>
        lcd_pset x y c t = store8 ?a (lcd_pset_byte x (lcd_pset_n c) (mem t ?a)) t"
      for t
      using lcd_pset_passes [of t x y c] assms a by (simp add: lcd_pset_addr_def)
    have f1: "mem (lcd_pset (x + 1) y c' (lcd_pset x y c s)) ?a =
          lcd_pset_byte (x + 1) (lcd_pset_n c') ?v"
      by (simp add: right [of "lcd_pset x y c s"] lcd_pset_lcdfb store8_fields)
        (simp add: run store8_fields)
    have f2: "mem (lcd_pset x y c (lcd_pset (x + 1) y c' s)) ?a =
          lcd_pset_byte x (lcd_pset_n c) (lcd_pset_byte (x + 1) (lcd_pset_n c') (mem s ?a))"
      by (simp add: left [of "lcd_pset (x + 1) y c' s"] lcd_pset_lcdfb store8_fields)
        (simp add: right store8_fields)
    show "mem (lcd_pset (x + 1) y c' (lcd_pset x y c s)) ?a AND 0xf = ucast (lcd_pset_n c)
         \<and> drop_bit 4 (mem (lcd_pset (x + 1) y c' (lcd_pset x y c s)) ?a) = ucast (lcd_pset_n c')
         \<and> mem (lcd_pset x y c (lcd_pset (x + 1) y c' s)) ?a AND 0xf = ucast (lcd_pset_n c)
         \<and> drop_bit 4 (mem (lcd_pset x y c (lcd_pset (x + 1) y c' s)) ?a) = ucast (lcd_pset_n c')"
      unfolding f1 f2 using e o
      by (simp add: byte_even_low byte_odd_low byte_odd_high byte_even_drop)
  qed
  show ?thesis using one others pair by blast
qed

theorem lcd_pset_one_nibble_witness:
  "lcdfb example_machine \<noteq> 0 \<and> 0 \<le> sint (6 :: 16 word) \<and> sint (6 :: 16 word) \<le> 480
   \<and> 0 \<le> sint (2 :: 16 word) \<and> sint (2 :: 16 word) \<le> 320
   \<and> mem (lcd_pset 6 2 0xFF0000 example_machine) 0x40100203 = 0x09
   \<and> mem (lcd_pset 6 2 0xFF0000 example_machine) 0x40100204 = 0
   \<and> mem (lcd_pset 7 2 0x0000C0 (lcd_pset 6 2 0xFF0000 example_machine)) 0x40100203 = 0xC9
   \<and> mem (lcd_pset 6 2 0xFF0000 (lcd_pset 7 2 0x0000C0 example_machine)) 0x40100203 = 0xC9"
  using lcd_pset_one_nibble [of example_machine 6 2 "0xFF0000"]
  by (simp add: example_machine_def lcd_pset_def lcd_pset_addr_def lcd_pset_index_def
      signed_divide_int_def lcd_pset_byte_def lcd_pset_n_def store8_def emit_def)

subsection \<open>C3: the bits of the nibble\<close>

text \<open>
  C3 as stated: for every colour, bit 2 of the nibble that \<open>lcd_pset\<close> computes is set
  exactly when red's top-used bit is set, bit 1 exactly when green's is, bit 0 exactly
  when blue's is, and bit 3 exactly when one of the three secondary bits is. It fails
  for the library's colours: \<open>C_RED = 0xFF0000\<close> has red's top bit set, and its nibble
  is 9, with bit 0 set and bit 2 clear.
\<close>

theorem lcd_pset_n_red_counterexample:
  "\<not> nibble_as_specified ugui_rgb888 0xFF0000"
  by (simp add: nibble_as_specified_def ugui_rgb888_def top_bit_def second_bit_def
      lcd_pset_n_def)

text \<open>
  C3, amended: for every colour \<open>c\<close>, bit 2 of the nibble is set exactly when bit 7 of
  \<open>c\<close> is set, bit 1 exactly when bit 15 is, bit 0 exactly when bit 23 is, and bit 3
  exactly when at least one of the bits 6, 14 and 22 is; no higher bit of the nibble
  is ever set. In the library's \<open>0xRRGGBB\<close> layout these are the top bits of blue,
  green and red, in that order, so bit 2 follows blue's top bit and bit 0 follows
  red's, and bits 6, 14 and 22 are the second bits of the three channels. The
  assignment of the claim (bit 2 to red, bit 0 to blue) is the one of the
  byte-reversed layout \<open>0xBBGGRR\<close>.
\<close>

theorem lcd_pset_n_bits:
  "(bit (lcd_pset_n c) 2 \<longleftrightarrow> bit c 7)
   \<and> (bit (lcd_pset_n c) 1 \<longleftrightarrow> bit c 15)
   \<and> (bit (lcd_pset_n c) 0 \<longleftrightarrow> bit c 23)
   \<and> (bit (lcd_pset_n c) 3 \<longleftrightarrow> bit c 6 \<or> bit c 14 \<or> bit c 22)
   \<and> lcd_pset_n c \<le> 15
   \<and> (bit (lcd_pset_n c) 2 \<longleftrightarrow> top_bit (blue_lsb ugui_rgb888) c)
   \<and> (bit (lcd_pset_n c) 1 \<longleftrightarrow> top_bit (green_lsb ugui_rgb888) c)
   \<and> (bit (lcd_pset_n c) 0 \<longleftrightarrow> top_bit (red_lsb ugui_rgb888) c)
   \<and> (bit (lcd_pset_n c) 3 \<longleftrightarrow>
        second_bit (red_lsb ugui_rgb888) c \<or> second_bit (green_lsb ugui_rgb888) c
        \<or> second_bit (blue_lsb ugui_rgb888) c)
   \<and> nibble_as_specified reversed_bgr888 c"
proof -
  have raw: "(bit (lcd_pset_n c) 2 \<longleftrightarrow> bit c 7)
   \<and> (bit (lcd_pset_n c) 1 \<longleftrightarrow> bit c 15)
   \<and> (bit (lcd_pset_n c) 0 \<longleftrightarrow> bit c 23)
   \<and> (bit (lcd_pset_n c) 3 \<longleftrightarrow> bit c 6 \<or> bit c 14 \<or> bit c 22)
   \<and> lcd_pset_n c \<le> 15"
    by (simp add: lcd_pset_n_cases bit_simps)
  then show ?thesis
    by (auto simp add: nibble_as_specified_def ugui_rgb888_def reversed_bgr888_def
        top_bit_def second_bit_def)
qed

theorem lcd_pset_n_bits_witness:
  "top_bit (red_lsb ugui_rgb888) 0xFF0000 \<and> bit (lcd_pset_n 0xFF0000) 0
   \<and> \<not> bit (lcd_pset_n 0xFF0000) 2 \<and> \<not> bit (lcd_pset_n 0xFF0000) 1
   \<and> bit (lcd_pset_n 0xFF0000) 3 \<and> lcd_pset_n 0xFF0000 = 9"
  using lcd_pset_n_bits [of "0xFF0000"]
  by (simp add: ugui_rgb888_def top_bit_def second_bit_def lcd_pset_n_def)

subsection \<open>C4: the row y = 320\<close>

text \<open>
  C4: for every colour and every \<open>x\<close> with \<open>0 \<le> x \<le> 480\<close>, \<open>lcd_pset\<close> with \<open>y = 320\<close>
  on an allocated framebuffer passes the bounds check and performs its store; the byte
  index \<open>(x + 320*512)/2\<close> is at least \<open>320*512/2\<close>, the length of the allocated block,
  so the byte read and written lies outside the block.
\<close>

theorem lcd_pset_row_320_outside:
  assumes "lcdfb s \<noteq> 0" "0 \<le> sint x" "sint x \<le> 480"
  shows "(\<exists>v. lcd_pset x 320 c s = store8 (lcdfb s + word_of_int ((sint x + 320 * 512) div 2)) v s)
     \<and> int fb_size \<le> (sint x + 320 * 512) div 2
     \<and> \<not> in_fb s (lcdfb s + word_of_int ((sint x + 320 * 512) div 2))"
proof -
  have y: "sint (320 :: 16 word) = 320" by simp
  have a: "lcd_pset_addr x 320 s = lcdfb s + word_of_int ((sint x + 320 * 512) div 2)"
    using assms by (simp add: lcd_pset_addr_def lcd_pset_index_div)
  have "lcd_pset x 320 c s =
      store8 (lcd_pset_addr x 320 s)
        (lcd_pset_byte x (lcd_pset_n c) (mem s (lcd_pset_addr x 320 s))) s"
    using assms y by (intro lcd_pset_passes) simp_all
  then have 1: "\<exists>v. lcd_pset x 320 c s =
      store8 (lcdfb s + word_of_int ((sint x + 320 * 512) div 2)) v s"
    unfolding a by blast
  have 2: "int fb_size \<le> (sint x + 320 * 512) div 2"
    using row_320_index(1) [OF assms(2,3)] assms by (simp add: lcd_pset_index_div)
  have 3: "\<not> in_fb s (lcdfb s + word_of_int ((sint x + 320 * 512) div 2))"
    using row_320_outside [OF assms(2,3), of s] unfolding a .
  show ?thesis using 1 2 3 by blast
qed

theorem lcd_pset_row_320_outside_witness:
  "lcdfb example_machine \<noteq> 0 \<and> 0 \<le> sint (480 :: 16 word) \<and> sint (480 :: 16 word) \<le> 480
   \<and> lcd_pset 480 320 0xFF0000 example_machine = store8 (0x40100000 + 82160) 9 example_machine
   \<and> fb_size = 81920
   \<and> \<not> in_fb example_machine (0x40100000 + 82160)"
  using lcd_pset_row_320_outside [of example_machine 480 "0xFF0000"]
  by (simp add: example_machine_def lcd_pset_def lcd_pset_addr_def lcd_pset_index_def
      signed_divide_int_def lcd_pset_byte_def lcd_pset_n_def fb_size_def in_fb_def)

subsection \<open>C5: the flush of the diagnostic loop\<close>

text \<open>
  C5 says that every pass of the diagnostic loop requests a flush that covers all
  \<open>320*512/2 = 81920\<close> bytes of the framebuffer. Line 106 calls
  \<open>cache_flush(lcdfb, lcdfb+320*480/2)\<close>: the region ends 76800 bytes after \<open>lcdfb\<close>,
  where line 66 allocates 81920. Evaluated on the framebuffer at \<open>0x40100000\<close>: the
  only store of the pass is that flush request, and the byte of the pixel
  \<open>(479, 319)\<close>, at offset 81903 inside the block, is outside the region requested.
\<close>

theorem loop_body_flush_short:
  "filter is_store32 (events_of (\<lambda>s. snd (loop_body example_defines (0, s))) example_machine)
     = events_of (cache_flush example_defines 0x40100000 (0x40100000 + 76800)) example_machine
   \<and> fb_size = 81920
   \<and> lcd_pset_addr 479 319 example_machine = 0x40100000 + 81903
   \<and> in_fb example_machine (0x40100000 + 81903)
   \<and> \<not> list_ex (flush_covers example_defines 0x40100000 (0x40100000 + 81903))
        (events_of (\<lambda>s. snd (loop_body example_defines (0, s))) example_machine)"
  by (simp add: loop_body_events cache_flush_events example_machine_def example_defines_def
      fb_size_def in_fb_def lcd_pset_addr_def lcd_pset_index_def signed_divide_int_def
      list_ex_iff)

subsection \<open>C6: draws that are discarded\<close>

text \<open>
  C6: if the framebuffer pointer is null, or \<open>x\<close> is outside \<open>[0, 480]\<close>, or \<open>y\<close> is
  outside \<open>[0, 320]\<close>, then \<open>lcd_pset\<close> returns the machine as it was: memory, the
  framebuffer pointer and the trace are unchanged, so no store was performed, and the
  call returns normally.
\<close>

theorem lcd_pset_discards:
  assumes "lcdfb s = 0 \<or> sint x < 0 \<or> 480 < sint x \<or> sint y < 0 \<or> 320 < sint y"
  shows "lcd_pset x y c s = s"
  using assms by (auto simp add: lcd_pset_def)

theorem lcd_pset_discards_witness:
  "lcd_pset 481 7 0xFF0000 example_machine = example_machine
   \<and> lcd_pset 7 321 0xFF0000 example_machine = example_machine
   \<and> lcd_pset (- 1) 7 0xFF0000 example_machine = example_machine
   \<and> lcd_pset 7 (- 1) 0xFF0000 example_machine = example_machine
   \<and> lcd_pset 7 7 0xFF0000 (example_machine\<lparr>lcdfb := 0\<rparr>) = example_machine\<lparr>lcdfb := 0\<rparr>"
  using lcd_pset_discards [of example_machine 481 7 "0xFF0000"]
    lcd_pset_discards [of example_machine 7 321 "0xFF0000"]
    lcd_pset_discards [of example_machine "- 1" 7 "0xFF0000"]
    lcd_pset_discards [of example_machine 7 "- 1" "0xFF0000"]
    lcd_pset_discards [of "example_machine\<lparr>lcdfb := 0\<rparr>" 7 7 "0xFF0000"]
  by simp

subsection \<open>C7: the heap start, then the entry point\<close>

text \<open>
  C7: in the application handoff, when the loader has returned the entry address \<open>E\<close>
  and the highest used address \<open>M\<close>, \<open>sbrk_app_set_heap_start\<close> is called with exactly
  \<open>M\<close> before the entry point is invoked, and the entry point is then invoked with
  \<open>argc = 0\<close> and \<open>argv = NULL\<close>. There is no other heap call and no other entry call.
\<close>

theorem handoff_heap_then_entry:
  assumes "load_new_app ''autoexec.elf'' = (E, M)"
  shows "\<exists>pre mid. events_of (main_handoff load_new_app) s
            = pre @ [Sbrk_app_set_heap_start M] @ mid @ [Maincall E 0 0]
          \<and> filter is_maincall (pre @ mid) = []
          \<and> filter is_heap_start (pre @ mid) = []"
proof -
  let ?pre = "[Load_new_app ''autoexec.elf'',
      Printf ''Loaded app, entry point is 0x%x, max addr used is 0x%X. Running...\<newline>'' [E, M]]"
  let ?mid = "[Printf ''Go!\<newline>'' []]"
  have "events_of (main_handoff load_new_app) s
            = ?pre @ [Sbrk_app_set_heap_start M] @ ?mid @ [Maincall E 0 0]"
    using assms by (simp add: main_handoff_events)
  moreover have "filter is_maincall (?pre @ ?mid) = []" by simp
  moreover have "filter is_heap_start (?pre @ ?mid) = []" by simp
  ultimately show ?thesis by blast
qed

theorem handoff_heap_then_entry_witness:
  "example_loader ''autoexec.elf'' = (0x40002000, 0x40012344)
   \<and> (\<exists>pre mid. events_of (main_handoff example_loader) example_machine
            = pre @ [Sbrk_app_set_heap_start 0x40012344] @ mid @ [Maincall 0x40002000 0 0]
          \<and> filter is_maincall (pre @ mid) = []
          \<and> filter is_heap_start (pre @ mid) = [])"
  using handoff_heap_then_entry [of example_loader "0x40002000" "0x40012344" example_machine]
  by (simp add: example_loader_def)

subsection \<open>C8: the store of cache_flush\<close>

text \<open>
  C8: for every region, \<open>cache_flush\<close> performs exactly one 32-bit store and changes
  nothing else. The value stored is the end address minus the RAM base; the target
  is the start address masked to a 4-byte boundary, minus the RAM base, offset into
  the flush-control window.
\<close>

theorem cache_flush_single_store:
  "events_of (cache_flush md addr_start addr_end) s =
     [Store32 (flush_target_spec md addr_start) (addr_end - MACH_RAM_START md)]
   \<and> mem (cache_flush md addr_start addr_end s) = mem s
   \<and> lcdfb (cache_flush md addr_start addr_end s) = lcdfb s"
proof -
  have "(addr_start AND NOT 3) - MACH_RAM_START md + MACH_FLUSH_REGION md
      = flush_target_spec md addr_start"
    by (simp only: and_not_3_spec flush_target_spec_def) simp
  then have "events_of (cache_flush md addr_start addr_end) s =
     [Store32 (flush_target_spec md addr_start) (addr_end - MACH_RAM_START md)]"
    by (simp only: cache_flush_events)
  then show ?thesis by (simp add: cache_flush_def Let_def emit_fields)
qed

theorem cache_flush_single_store_witness:
  "events_of (cache_flush example_defines 0x40100003 0x40112C00) example_machine =
     [Store32 0x80100000 0x00112C00]"
  using cache_flush_single_store [of example_defines "0x40100003" "0x40112C00" example_machine]
  by (simp add: flush_target_spec_def example_defines_def)

subsection \<open>C9: one pass of the diagnostic loop\<close>

text \<open>
  C9 as stated: for any counter value \<open>p\<close> at the start of a pass, the pass increases
  the counter by exactly 1. It fails at \<open>p = 2147483647\<close>, the largest \<open>int\<close>: the
  32-bit increment of line 102 gives \<open>-2147483648\<close>, and the text drawn is
  \<open>-2147483648\<close>.
\<close>

theorem loop_body_overflow_counterexample:
  "sint (fst (loop_body example_defines (0x7FFFFFFF, example_machine)))
      \<noteq> sint (0x7FFFFFFF :: 32 word) + 1
   \<and> sint (fst (loop_body example_defines (0x7FFFFFFF, example_machine))) = - 2147483648
   \<and> sprintf_d (fst (loop_body example_defines (0x7FFFFFFF, example_machine))) = ''-2147483648''"
  by (simp add: loop_body_counter sprintf_d_def dec_digits.simps digit_char_def)

text \<open>
  C9, amended: for any counter value \<open>p\<close> below 2147483647 at the start of a pass of
  the diagnostic loop, the pass increases the counter by exactly 1, draws the decimal
  text of the incremented counter at the screen position \<open>(48, 64)\<close>, requests one
  flush, and then makes exactly 500 times the two polling calls \<open>usb_poll\<close> and
  \<open>tud_task\<close>, back to back, and nothing else. Pass after pass the events are the
  same but for the text drawn, so the same 1000 polling calls lie between any two
  successive draws.
\<close>

theorem loop_body_step:
  assumes "sint p < 2147483647"
  shows "sint (fst (loop_body md (p, s))) = sint p + 1
     \<and> dec_int (sprintf_d (fst (loop_body md (p, s)))) = sint p + 1
     \<and> events_of (\<lambda>s. snd (loop_body md (p, s))) s =
          [UG_SetForecolor C_RED, UG_PutString 48 64 (sprintf_d (fst (loop_body md (p, s))))]
          @ events_of (cache_flush md (lcdfb s) (lcdfb s + 76800)) s
          @ concat (replicate 500 [Usb_poll, Tud_task])
     \<and> (\<forall>n. events_of (\<lambda>s. snd (diag_loop md n (p, s))) s =
          concat (map (\<lambda>k. [UG_SetForecolor C_RED,
                             UG_PutString 48 64 (sprintf_d (p + 1 + of_nat k))]
                  @ events_of (cache_flush md (lcdfb s) (lcdfb s + 76800)) s
                  @ concat (replicate 500 [Usb_poll, Tud_task])) [0..<n]))"
proof -
  have "- (2 ^ 31) \<le> sint p" using sint_ge [of p] by simp
  then have 1: "sint (p + 1) = sint p + 1"
    using assms by (simp add: sint_word_add signed_take_bit_int_eq_self)
  have 2: "events_of (\<lambda>s. snd (loop_body md (p, s))) s =
          [UG_SetForecolor C_RED, UG_PutString 48 64 (sprintf_d (p + 1))]
          @ events_of (cache_flush md (lcdfb s) (lcdfb s + 76800)) s
          @ concat (replicate 500 [Usb_poll, Tud_task])"
    by (simp add: events_of_def loop_body_trace)
  have 3: "events_of (\<lambda>s. snd (diag_loop md n (p, s))) s =
          concat (map (\<lambda>k. [UG_SetForecolor C_RED,
                             UG_PutString 48 64 (sprintf_d (p + 1 + of_nat k))]
                  @ events_of (cache_flush md (lcdfb s) (lcdfb s + 76800)) s
                  @ concat (replicate 500 [Usb_poll, Tud_task])) [0..<n])" for n
    by (simp add: events_of_def diag_loop_trace)
  show ?thesis
    unfolding loop_body_counter dec_int_sprintf_d 1 using 2 3 by simp
qed

theorem loop_body_step_witness:
  "sint (41 :: 32 word) < 2147483647
   \<and> sint (fst (loop_body example_defines (41, example_machine))) = 42
   \<and> dec_int ''42'' = 42
   \<and> events_of (\<lambda>s. snd (loop_body example_defines (41, s))) example_machine
       = [UG_SetForecolor C_RED, UG_PutString 48 64 ''42'', Store32 0x80100000 0x00112C00]
         @ concat (replicate 500 [Usb_poll, Tud_task])"
  using loop_body_step [of 41 example_defines example_machine]
  by (simp add: loop_body_counter loop_body_events sprintf_d_def dec_digits.simps digit_char_def
      example_machine_def example_defines_def)

subsection \<open>C10: drawing a pixel twice\<close>

text \<open>
  C10: for every \<open>x\<close>, \<open>y\<close>, colour and machine, calling \<open>lcd_pset\<close> twice in succession
  with the same arguments leaves memory, and the framebuffer pointer, exactly as one
  call does.
\<close>

theorem lcd_pset_idempotent:
  "mem (lcd_pset x y c (lcd_pset x y c s)) = mem (lcd_pset x y c s)
   \<and> lcdfb (lcd_pset x y c (lcd_pset x y c s)) = lcdfb (lcd_pset x y c s)"
proof (cases "lcdfb s \<noteq> 0 \<and> 0 \<le> sint x \<and> sint x \<le> 480 \<and> 0 \<le> sint y \<and> sint y \<le> 320")
  case True
  let ?a = "lcd_pset_addr x y s"
  let ?v = "lcd_pset_byte x (lcd_pset_n c) (mem s ?a)"
  have 1: "lcd_pset x y c s = store8 ?a ?v s"
    using True by (intro lcd_pset_passes) simp_all
  have "lcd_pset x y c (store8 ?a ?v s) =
      store8 (lcd_pset_addr x y (store8 ?a ?v s))
        (lcd_pset_byte x (lcd_pset_n c)
          (mem (store8 ?a ?v s) (lcd_pset_addr x y (store8 ?a ?v s))))
        (store8 ?a ?v s)"
    using True by (intro lcd_pset_passes) (simp_all add: store8_fields)
  then have 2: "lcd_pset x y c (store8 ?a ?v s) = store8 ?a ?v (store8 ?a ?v s)"
    by (simp add: lcd_pset_addr_def store8_fields byte_twice)
  show ?thesis unfolding 1 2 by (simp add: store8_fields)
next
  case False
  then have "lcd_pset x y c s = s" by (auto simp add: lcd_pset_def)
  then show ?thesis by simp
qed

theorem lcd_pset_idempotent_witness:
  "mem (lcd_pset 7 2 0x0000C0 (lcd_pset 7 2 0x0000C0 example_machine)) =
     mem (lcd_pset 7 2 0x0000C0 example_machine)
   \<and> mem (lcd_pset 7 2 0x0000C0 example_machine) 0x40100203 = 0xC0"
  using lcd_pset_idempotent [of 7 2 "0x0000C0" example_machine]
  by (simp add: example_machine_def lcd_pset_def lcd_pset_addr_def lcd_pset_index_def
      signed_divide_int_def lcd_pset_byte_def lcd_pset_n_def store8_def emit_def)

end
